theory Spec2Isabelle
  imports Complex_Main "HOL-Library.Word"
begin

section \<open>Search attribute types: \<^verbatim>\<open>common/searchattribute/search_attirbute.go\<close>\<close>

subsection \<open>The value-type enumeration\<close>

text \<open>
  \<^verbatim>\<open>enumspb.IndexedValueType\<close> is a Go \<^verbatim>\<open>int32\<close>: every 32-bit value inhabits the
  type, the known enumeration is the seven constants below. The package that declares
  them, \<^verbatim>\<open>go.temporal.io/api/enums/v1\<close>, is imported by the source file and not part of
  it.
\<close>

type_synonym int32 = "32 word"
type_synonym IndexedValueType = int32
type_synonym bytes = string

text \<open>
  Modelled from the spec: the constant of the imported package for Unspecified, number 0 of
  the enumeration.
\<close>

definition INDEXED_VALUE_TYPE_UNSPECIFIED :: IndexedValueType where
  "INDEXED_VALUE_TYPE_UNSPECIFIED = 0"

text \<open>
  Modelled from the spec: the constant of the imported package for String, number 1 of
  the enumeration.
\<close>

definition INDEXED_VALUE_TYPE_STRING :: IndexedValueType where
  "INDEXED_VALUE_TYPE_STRING = 1"

text \<open>
  Modelled from the spec: the constant of the imported package for Keyword, number 2 of
  the enumeration.
\<close>

definition INDEXED_VALUE_TYPE_KEYWORD :: IndexedValueType where
  "INDEXED_VALUE_TYPE_KEYWORD = 2"

text \<open>
  Modelled from the spec: the constant of the imported package for Int, number 3 of
  the enumeration.
\<close>

definition INDEXED_VALUE_TYPE_INT :: IndexedValueType where
  "INDEXED_VALUE_TYPE_INT = 3"

text \<open>
  Modelled from the spec: the constant of the imported package for Double, number 4 of
  the enumeration.
\<close>

definition INDEXED_VALUE_TYPE_DOUBLE :: IndexedValueType where
  "INDEXED_VALUE_TYPE_DOUBLE = 4"

text \<open>
  Modelled from the spec: the constant of the imported package for Bool, number 5 of
  the enumeration.
\<close>

definition INDEXED_VALUE_TYPE_BOOL :: IndexedValueType where
  "INDEXED_VALUE_TYPE_BOOL = 5"

text \<open>
  Modelled from the spec: the constant of the imported package for Datetime, number 6 of
  the enumeration.
\<close>

definition INDEXED_VALUE_TYPE_DATETIME :: IndexedValueType where
  "INDEXED_VALUE_TYPE_DATETIME = 6"

text \<open>
  Modelled from the spec: the table \<^verbatim>\<open>enumspb.IndexedValueType_name\<close> belongs to the
  imported package \<^verbatim>\<open>go.temporal.io/api/enums/v1\<close>, which is not among the sources.
  The spec gives the closed enumeration Unspecified, String, Keyword, Int, Double, Bool,
  Datetime in this order, Unspecified being the zero value, with these literal canonical
  names and a parallel set of numeric codes.
\<close>

definition IndexedValueType_name :: "int32 \<rightharpoonup> string" where
  "IndexedValueType_name = map_of
     [(0, ''Unspecified''), (1, ''String''), (2, ''Keyword''), (3, ''Int''),
      (4, ''Double''), (5, ''Bool''), (6, ''Datetime'')]"

text \<open>
  Modelled from the spec: the table \<^verbatim>\<open>enumspb.IndexedValueType_value\<close> of the same
  package, the inverse of the name table.
\<close>

definition IndexedValueType_value :: "string \<rightharpoonup> int32" where
  "IndexedValueType_value = map_of
     [(''Unspecified'', 0), (''String'', 1), (''Keyword'', 2), (''Int'', 3),
      (''Double'', 4), (''Bool'', 5), (''Datetime'', 6)]"

definition MetadataType :: string where
  "MetadataType = ''type''"

subsection \<open>Dynamic configuration descriptors\<close>

text \<open>
  A \<^verbatim>\<open>float64\<close> is modelled by the number it denotes: \<open>Finite m e\<close> is \<open>m * 2 ^ e\<close>
  (every finite double has this form with \<open>\<bar>m\<bar> < 2 ^ 53\<close>), next to the two infinities
  and NaN. The only floating-point operation of the code is the conversion to
  \<^verbatim>\<open>int32\<close>, which is exact on this representation.
\<close>

datatype float64 = Finite int int | Infinity bool | NaN

text \<open>
  The dynamic value behind \<^verbatim>\<open>interface{}\<close>, by its dynamic type. Go's \<^verbatim>\<open>int\<close> is taken
  at its 64-bit width. \<open>DOther\<close> stands for a value of any dynamic type the type switch
  has no case for (\<^verbatim>\<open>nil\<close>, \<^verbatim>\<open>bool\<close>, \<^verbatim>\<open>int32\<close>, \<^verbatim>\<open>int64\<close>, ...), named by its type.
\<close>

datatype descriptor =
    DFloat64 float64
  | DInt "64 word"
  | DString string
  | DIndexedValueType IndexedValueType
  | DOther string

text \<open>
  The three error values. \<^verbatim>\<open>fmt.Errorf("%w: %s", ErrInvalidName, name)\<close> wraps the
  sentinel with the name; \<^verbatim>\<open>fmt.Errorf("%w: %v of type %T", ErrInvalidType, d, d)\<close> wraps
  it with the descriptor's value and dynamic type, so each error carries exactly the
  data its message is formatted from.
\<close>

datatype error =
    ErrInvalidName string
  | ErrInvalidType descriptor
  | ErrTypeMapIsEmpty

text \<open>
  A Go map value of type \<^verbatim>\<open>map[string]IndexedValueType\<close>: \<open>None\<close> is the nil map,
  \<open>Some m\<close> an allocated one. \<^verbatim>\<open>len(typeMap) == 0\<close> holds of the nil map and of an
  allocated map without keys; indexing the nil map finds nothing.
\<close>

type_synonym TypeMap = "(string \<rightharpoonup> IndexedValueType) option"

definition len_is_zero :: "TypeMap \<Rightarrow> bool" where
  "len_is_zero typeMap = (case typeMap of None \<Rightarrow> True | Some m \<Rightarrow> m = Map.empty)"

definition index :: "TypeMap \<Rightarrow> string \<Rightarrow> IndexedValueType option" where
  "index typeMap name = (case typeMap of None \<Rightarrow> None | Some m \<Rightarrow> m name)"

subsection \<open>convertDynamicConfigType\<close>

text \<open>
  Go's conversion of a floating-point number to an integer type discards the fraction
  (truncation towards zero).
\<close>

fun float64_trunc :: "float64 \<Rightarrow> int option" where
  "float64_trunc (Finite m e) =
     Some (if 0 \<le> e then m * 2 ^ nat e else sgn m * (\<bar>m\<bar> div 2 ^ nat (- e)))"
| "float64_trunc (Infinity _) = None"
| "float64_trunc NaN = None"

text \<open>
  \<^verbatim>\<open>enumspb.IndexedValueType(t)\<close> for \<^verbatim>\<open>t float64\<close>. When the truncated value does not
  fit \<^verbatim>\<open>int32\<close> (or there is none), the language leaves the result to the
  implementation: it is whatever the parameter \<open>impl\<close> gives.
\<close>

definition float64_to_int32 :: "(float64 \<Rightarrow> int32) \<Rightarrow> float64 \<Rightarrow> int32" where
  "float64_to_int32 impl t =
     (case float64_trunc t of
        None \<Rightarrow> impl t
      | Some z \<Rightarrow> if - (2 ^ 31) \<le> z \<and> z < 2 ^ 31 then word_of_int z else impl t)"

text \<open>
  Every branch of the type switch that does not return falls through to the final
  \<^verbatim>\<open>return INDEXED_VALUE_TYPE_UNSPECIFIED, fmt.Errorf(...)\<close>. The conversion of an
  \<^verbatim>\<open>int\<close> to \<^verbatim>\<open>int32\<close> keeps the low 32 bits.
\<close>

definition convertDynamicConfigType ::
  "(float64 \<Rightarrow> int32) \<Rightarrow> descriptor \<Rightarrow> IndexedValueType \<times> error option" where
  "convertDynamicConfigType impl dynamicConfigType =
     (let invalid = (INDEXED_VALUE_TYPE_UNSPECIFIED, Some (ErrInvalidType dynamicConfigType))
      in case dynamicConfigType of
        DFloat64 t \<Rightarrow>
          (let ivt = float64_to_int32 impl t
           in if IndexedValueType_name ivt \<noteq> None then (ivt, None) else invalid)
      | DInt t \<Rightarrow>
          (let ivt = (ucast t :: int32)
           in if IndexedValueType_name ivt \<noteq> None then (ivt, None) else invalid)
      | DString t \<Rightarrow>
          (case IndexedValueType_value t of Some ivt \<Rightarrow> (ivt, None) | None \<Rightarrow> invalid)
      | DIndexedValueType t \<Rightarrow>
          (if IndexedValueType_name t \<noteq> None then (t, None) else invalid)
      | DOther _ \<Rightarrow> invalid)"

subsection \<open>BuildTypeMap\<close>

text \<open>
  The mapping returned by the configuration function is the list of its entries in the
  order in which \<^verbatim>\<open>range\<close> visits them (a nil map and an empty map are both the empty
  list). A nil function is \<open>None\<close>. On the first error the loop returns the nil map
  and the error.
\<close>

type_synonym MapPropertyFn = "(unit \<Rightarrow> (string \<times> descriptor) list) option"

fun BuildTypeMap_loop ::
  "(float64 \<Rightarrow> int32) \<Rightarrow> (string \<times> descriptor) list \<Rightarrow> (string \<rightharpoonup> IndexedValueType)
     \<Rightarrow> TypeMap \<times> error option" where
  "BuildTypeMap_loop impl [] result = (Some result, None)"
| "BuildTypeMap_loop impl ((saName, saType) # rest) result =
     (case convertDynamicConfigType impl saType of
        (v, Some err) \<Rightarrow> (None, Some err)
      | (v, None) \<Rightarrow> BuildTypeMap_loop impl rest (result(saName \<mapsto> v)))"

definition BuildTypeMap ::
  "(float64 \<Rightarrow> int32) \<Rightarrow> MapPropertyFn \<Rightarrow> TypeMap \<times> error option" where
  "BuildTypeMap impl validSearchAttributesFn =
     (case validSearchAttributesFn of
        None \<Rightarrow> (None, None)
      | Some fn \<Rightarrow>
          (let validSearchAttributes = fn ()
           in if length validSearchAttributes = 0 then (None, None)
              else BuildTypeMap_loop impl validSearchAttributes Map.empty))"

subsection \<open>GetType\<close>

definition GetType :: "string \<Rightarrow> TypeMap \<Rightarrow> IndexedValueType \<times> error option" where
  "GetType name typeMap =
     (if len_is_zero typeMap then (INDEXED_VALUE_TYPE_UNSPECIFIED, Some ErrTypeMapIsEmpty)
      else case index typeMap name of
        None \<Rightarrow> (INDEXED_VALUE_TYPE_UNSPECIFIED, Some (ErrInvalidName name))
      | Some saType \<Rightarrow> (saType, None))"

subsection \<open>GetESType\<close>

definition GetESType :: "IndexedValueType \<Rightarrow> string" where
  "GetESType t =
     (if t = INDEXED_VALUE_TYPE_STRING then ''text''
      else if t = INDEXED_VALUE_TYPE_KEYWORD then ''keyword''
      else if t = INDEXED_VALUE_TYPE_INT then ''long''
      else if t = INDEXED_VALUE_TYPE_DOUBLE then ''double''
      else if t = INDEXED_VALUE_TYPE_BOOL then ''boolean''
      else if t = INDEXED_VALUE_TYPE_DATETIME then ''date''
      else [])"

subsection \<open>Payloads and ApplyTypeMap\<close>

text \<open>
  \<^verbatim>\<open>IndexedFields\<close> is a \<^verbatim>\<open>map[string]*commonpb.Payload\<close> and a payload's \<^verbatim>\<open>Metadata\<close>
  a \<^verbatim>\<open>map[string][]byte\<close>: the code writes through a pointer into a map object, so two
  names may hold the same pointer and two payloads the same map. The store keeps the
  payload structs by address and the contents of the map objects by reference. A nil
  pointer and a nil map are \<open>None\<close>.
\<close>

type_synonym pref = nat
type_synonym mref = nat

record Payload =
  Metadata :: "mref option"
  Data :: bytes

record store =
  payload_at :: "pref \<Rightarrow> Payload"
  map_at :: "mref \<Rightarrow> (string \<rightharpoonup> bytes)"

text \<open>
  The entries of \<^verbatim>\<open>IndexedFields\<close> in the order in which \<^verbatim>\<open>range\<close> visits them.
  \<^verbatim>\<open>GetIndexedFields\<close> on a nil \<^verbatim>\<open>*SearchAttributes\<close> is the nil map. No statement of
  the source assigns to this map or deletes from it: it is an argument that the
  functions read, and not a part of the store that they return.
\<close>

record SearchAttributes =
  IndexedFields :: "(string \<times> pref option) list"

definition GetIndexedFields :: "SearchAttributes option \<Rightarrow> (string \<times> pref option) list" where
  "GetIndexedFields searchAttributes =
     (case searchAttributes of None \<Rightarrow> [] | Some sa \<Rightarrow> IndexedFields sa)"

datatype panic =
    NilPointerDereference
  | AssignmentToEntryInNilMap
  | UnknownIndexValueType IndexedValueType

text \<open>The contents of a metadata map read through its reference; a nil map has no key.\<close>

definition read_map :: "store \<Rightarrow> mref option \<Rightarrow> (string \<rightharpoonup> bytes)" where
  "read_map s m = (case m of None \<Rightarrow> Map.empty | Some r \<Rightarrow> map_at s r)"

text \<open>The metadata seen through a payload pointer.\<close>

definition metadata_of :: "store \<Rightarrow> pref \<Rightarrow> (string \<rightharpoonup> bytes)" where
  "metadata_of s p = read_map s (Metadata (payload_at s p))"

definition setMetadataType :: "pref option \<Rightarrow> IndexedValueType \<Rightarrow> store \<Rightarrow> store \<times> panic option" where
  "setMetadataType p t s =
     (if t = INDEXED_VALUE_TYPE_UNSPECIFIED then (s, None)
      else case IndexedValueType_name t of
        None \<Rightarrow> (s, Some (UnknownIndexValueType t))
      | Some tString \<Rightarrow>
          (case p of
             None \<Rightarrow> (s, Some NilPointerDereference)
           | Some a \<Rightarrow>
               (case Metadata (payload_at s a) of
                  None \<Rightarrow> (s, Some AssignmentToEntryInNilMap)
                | Some r \<Rightarrow>
                    (s\<lparr>map_at := (map_at s)(r := (map_at s r)(MetadataType \<mapsto> tString))\<rparr>,
                     None))))"

text \<open>The body of the \<^verbatim>\<open>range\<close> loop for one entry; \<open>(s, None)\<close> is \<^verbatim>\<open>continue\<close>.\<close>

definition ApplyTypeMap_body ::
  "string \<times> pref option \<Rightarrow> TypeMap \<Rightarrow> store \<Rightarrow> store \<times> panic option" where
  "ApplyTypeMap_body entry typeMap s =
     (case entry of (saName, saPayload) \<Rightarrow>
        (case saPayload of
           None \<Rightarrow> (s, Some NilPointerDereference)
         | Some a \<Rightarrow>
             (let metadataHasValueType = (metadata_of s a MetadataType \<noteq> None)
              in if metadataHasValueType then (s, None)
                 else case index typeMap saName of
                   None \<Rightarrow> (s, None)
                 | Some valueType \<Rightarrow> setMetadataType saPayload valueType s)))"

fun ApplyTypeMap_loop ::
  "(string \<times> pref option) list \<Rightarrow> TypeMap \<Rightarrow> store \<Rightarrow> store \<times> panic option" where
  "ApplyTypeMap_loop [] typeMap s = (s, None)"
| "ApplyTypeMap_loop (entry # rest) typeMap s =
     (case ApplyTypeMap_body entry typeMap s of
        (s', Some pn) \<Rightarrow> (s', Some pn)
      | (s', None) \<Rightarrow> ApplyTypeMap_loop rest typeMap s')"

definition ApplyTypeMap ::
  "SearchAttributes option \<Rightarrow> TypeMap \<Rightarrow> store \<Rightarrow> store \<times> panic option" where
  "ApplyTypeMap searchAttributes typeMap s =
     (if len_is_zero typeMap then (s, None)
      else ApplyTypeMap_loop (GetIndexedFields searchAttributes) typeMap s)"

subsection \<open>The table of the index type vocabulary, as the specification words it\<close>

text \<open>
  The six pairs of the specification's table; a value without a pair has no index type.
\<close>

definition es_type_table :: "(IndexedValueType \<times> string) list" where
  "es_type_table =
     [(INDEXED_VALUE_TYPE_STRING, ''text''), (INDEXED_VALUE_TYPE_KEYWORD, ''keyword''),
      (INDEXED_VALUE_TYPE_INT, ''long''), (INDEXED_VALUE_TYPE_DOUBLE, ''double''),
      (INDEXED_VALUE_TYPE_BOOL, ''boolean''), (INDEXED_VALUE_TYPE_DATETIME, ''date'')]"

subsection \<open>The accepted descriptors, as the specification words them\<close>

text \<open>
  The known numeric codes and canonical names, and the descriptors that denote one of
  them: a number whose conversion to \<^verbatim>\<open>int32\<close> is a known code, a canonical name, an
  enumeration value that is a known code.
\<close>

definition known_codes :: "int32 set" where
  "known_codes = {0, 1, 2, 3, 4, 5, 6}"

definition canonical_names :: "string set" where
  "canonical_names = {''Unspecified'', ''String'', ''Keyword'', ''Int'', ''Double'', ''Bool'', ''Datetime''}"

definition known_descriptor :: "(float64 \<Rightarrow> int32) \<Rightarrow> descriptor \<Rightarrow> bool" where
  "known_descriptor impl d =
     (case d of
        DFloat64 t \<Rightarrow> float64_to_int32 impl t \<in> known_codes
      | DInt t \<Rightarrow> (ucast t :: int32) \<in> known_codes
      | DString t \<Rightarrow> t \<in> canonical_names
      | DIndexedValueType t \<Rightarrow> t \<in> known_codes
      | DOther _ \<Rightarrow> False)"

subsection \<open>The number a float64 denotes, and truncation, as arithmetic on the reals\<close>

text \<open>
  Independently of the conversion above: the real number that the finite float with
  mantissa \<open>m\<close> and binary exponent \<open>e\<close> stands for, and the integer obtained from a
  real number by discarding its fraction, which is its floor when the number is not
  negative and its ceiling when it is.
\<close>

definition float64_value :: "int \<Rightarrow> int \<Rightarrow> real" where
  "float64_value m e = of_int m * 2 powi e"

definition truncate_toward_zero :: "real \<Rightarrow> int" where
  "truncate_toward_zero x = (if 0 \<le> x then \<lfloor>x\<rfloor> else \<lceil>x\<rceil>)"

subsection \<open>Entries on which the loop body does nothing\<close>

text \<open>
  An entry is settled in a store when the body of the loop leaves the store as it is:
  its payload already carries the type key, or its name is not in the type map, or the
  type map gives Unspecified for it.
\<close>

definition settled :: "TypeMap \<Rightarrow> store \<Rightarrow> string \<times> pref option \<Rightarrow> bool" where
  "settled typeMap s entry =
     (case entry of
        (saName, None) \<Rightarrow> False
      | (saName, Some a) \<Rightarrow>
          metadata_of s a MetadataType \<noteq> None \<or> index typeMap saName = None \<or>
          index typeMap saName = Some INDEXED_VALUE_TYPE_UNSPECIFIED)"

subsection \<open>Example inputs\<close>

text \<open>
  A store with three payloads: payload 0 with an allocated metadata map that has no
  type key, payload 1 whose metadata already says Int, payload 3 with an allocated empty
  metadata map; every other address holds a payload with a nil metadata map. And a type
  map with two typed names and one name mapped to Unspecified.
\<close>

definition example_store :: store where
  "example_store =
     \<lparr>payload_at = (\<lambda>_. \<lparr>Metadata = None, Data = []\<rparr>)
        (0 := \<lparr>Metadata = Some 0, Data = ''v0''\<rparr>,
         1 := \<lparr>Metadata = Some 1, Data = ''v1''\<rparr>,
         3 := \<lparr>Metadata = Some 3, Data = ''v3''\<rparr>),
      map_at = (\<lambda>_. Map.empty)
        (0 := [''encoding'' \<mapsto> ''json/plain''],
         1 := [''encoding'' \<mapsto> ''json/plain'', ''type'' \<mapsto> ''Int''])\<rparr>"

definition example_typeMap :: TypeMap where
  "example_typeMap =
     Some [''a'' \<mapsto> INDEXED_VALUE_TYPE_STRING, ''b'' \<mapsto> INDEXED_VALUE_TYPE_KEYWORD,
           ''u'' \<mapsto> INDEXED_VALUE_TYPE_UNSPECIFIED]"

section \<open>Properties\<close>

lemmas ivt_defs =
  INDEXED_VALUE_TYPE_UNSPECIFIED_def INDEXED_VALUE_TYPE_STRING_def
  INDEXED_VALUE_TYPE_KEYWORD_def INDEXED_VALUE_TYPE_INT_def INDEXED_VALUE_TYPE_DOUBLE_def
  INDEXED_VALUE_TYPE_BOOL_def INDEXED_VALUE_TYPE_DATETIME_def

subsection \<open>GetESType\<close>

text \<open>
  C8: GetESType is total and equals the fixed table String to "text", Keyword to
  "keyword", Int to "long", Double to "double", Bool to "boolean", Datetime to "date";
  it returns the empty string for Unspecified and for every value outside the known
  enumeration.
\<close>

theorem GetESType_table:
  "GetESType INDEXED_VALUE_TYPE_STRING = ''text'' \<and>
   GetESType INDEXED_VALUE_TYPE_KEYWORD = ''keyword'' \<and>
   GetESType INDEXED_VALUE_TYPE_INT = ''long'' \<and>
   GetESType INDEXED_VALUE_TYPE_DOUBLE = ''double'' \<and>
   GetESType INDEXED_VALUE_TYPE_BOOL = ''boolean'' \<and>
   GetESType INDEXED_VALUE_TYPE_DATETIME = ''date'' \<and>
   GetESType INDEXED_VALUE_TYPE_UNSPECIFIED = [] \<and>
   (\<forall>t. IndexedValueType_name t = None \<longrightarrow> GetESType t = []) \<and>
   (\<forall>t. GetESType t = (case map_of es_type_table t of Some s \<Rightarrow> s | None \<Rightarrow> []))"
  by (simp add: GetESType_def es_type_table_def ivt_defs IndexedValueType_name_def)

theorem GetESType_table_witness:
  "IndexedValueType_name (7 :: int32) = None \<and> GetESType 7 = [] \<and>
   IndexedValueType_name (- 1 :: int32) = None \<and> GetESType (- 1) = []"
proof -
  have a: "IndexedValueType_name (7 :: int32) = None"
    and b: "IndexedValueType_name (- 1 :: int32) = None"
    by (simp_all add: IndexedValueType_name_def)
  from GetESType_table have "\<forall>t. IndexedValueType_name t = None \<longrightarrow> GetESType t = []"
    by blast
  with a b show ?thesis by blast
qed

subsection \<open>convertDynamicConfigType\<close>

lemma word_of_int_known:
  "0 \<le> z \<Longrightarrow> z \<le> 6 \<Longrightarrow> IndexedValueType_name (word_of_int z) \<noteq> None"
proof -
  assume "0 \<le> z" "z \<le> 6"
  then have "z = 0 \<or> z = 1 \<or> z = 2 \<or> z = 3 \<or> z = 4 \<or> z = 5 \<or> z = 6" by arith
  then show ?thesis by (auto simp: IndexedValueType_name_def)
qed

text \<open>
  The conversion computed on mantissa and exponent is truncation towards zero of the
  number denoted.
\<close>

lemma value_nonneg_exp:
  "0 \<le> e \<Longrightarrow> float64_value m e = of_int (m * 2 ^ nat e)"
  by (simp add: float64_value_def power_int_def)

lemma value_neg_exp:
  "e < 0 \<Longrightarrow> float64_value m e = of_int m / of_int (2 ^ nat (- e))"
  by (simp add: float64_value_def power_int_def field_simps)

lemma float64_trunc_denotes:
  "float64_trunc (Finite m e) = Some (truncate_toward_zero (float64_value m e))"
proof (cases "0 \<le> e")
  case True
  then show ?thesis
    by (simp add: value_nonneg_exp truncate_toward_zero_def del: of_int_mult of_int_power)
next
  case False
  then have e: "e < 0" by simp
  let ?d = "(2::int) ^ nat (- e)"
  have d: "0 < ?d" by simp
  have v: "float64_value m e = of_int m / of_int ?d" using e by (rule value_neg_exp)
  show ?thesis
  proof (cases "0 \<le> m")
    case True
    then have "0 \<le> float64_value m e" unfolding v using d by simp
    moreover have "\<lfloor>real_of_int m / real_of_int ?d\<rfloor> = m div ?d"
      by (rule floor_divide_of_int_eq)
    moreover have "sgn m * (\<bar>m\<bar> div ?d) = m div ?d"
      using True by (cases "m = 0") (simp_all add: sgn_if)
    ultimately show ?thesis using e v by (simp add: truncate_toward_zero_def)
  next
    case False
    then have m: "m < 0" by simp
    then have "float64_value m e < 0" unfolding v using d
      by (simp add: divide_neg_pos)
    moreover have "\<lceil>real_of_int m / real_of_int ?d\<rceil> = - ((- m) div ?d)"
    proof -
      have "\<lceil>real_of_int m / real_of_int ?d\<rceil> = - \<lfloor>- (real_of_int m / real_of_int ?d)\<rfloor>"
        by (simp add: ceiling_def)
      also have "- (real_of_int m / real_of_int ?d) = real_of_int (- m) / real_of_int ?d"
        by simp
      also have "\<lfloor>real_of_int (- m) / real_of_int ?d\<rfloor> = (- m) div ?d"
        by (rule floor_divide_of_int_eq)
      finally show ?thesis .
    qed
    moreover have "sgn m * (\<bar>m\<bar> div ?d) = - ((- m) div ?d)"
      using m by (simp add: sgn_if)
    ultimately show ?thesis using e v by (simp add: truncate_toward_zero_def)
  qed
qed

lemma word_of_int_unknown:
  assumes "- (2 ^ 31) \<le> z" "z < 2 ^ 31" "\<not> (0 \<le> z \<and> z \<le> 6)"
  shows "IndexedValueType_name (word_of_int z) = None"
proof -
  have s: "sint (word_of_int z :: int32) = z"
    using assms(1,2) by (simp add: sint_sbintrunc' signed_take_bit_int_eq_self)
  have "(word_of_int z :: int32) \<noteq> k" if "0 \<le> sint k \<and> sint k \<le> 6" for k :: int32
    using s that assms(3) by auto
  then have "(word_of_int z :: int32) \<notin> {0, 1, 2, 3, 4, 5, 6}" by force
  then show ?thesis by (simp add: IndexedValueType_name_def)
qed

lemma convert_float64_rejects:
  assumes "truncate_toward_zero (float64_value m e) = z"
    and "- (2 ^ 31) \<le> z" "z < 2 ^ 31" "\<not> (0 \<le> z \<and> z \<le> 6)"
  shows "convertDynamicConfigType impl (DFloat64 (Finite m e))
    = (INDEXED_VALUE_TYPE_UNSPECIFIED, Some (ErrInvalidType (DFloat64 (Finite m e))))"
proof -
  have "float64_trunc (Finite m e) = Some z" by (simp only: float64_trunc_denotes assms(1))
  with assms(2,3) word_of_int_unknown [OF assms(2,3,4)] show ?thesis
    by (simp add: convertDynamicConfigType_def float64_to_int32_def Let_def)
qed

text \<open>
  C10: a float64 descriptor is truncated, not rejected: whenever the number that the
  descriptor denotes, with its fraction discarded, is a known enumeration code,
  convertDynamicConfigType succeeds with the type of that code (the double nearest to
  1.9 yields code 1).
\<close>

theorem convert_float64_truncates:
  "truncate_toward_zero (float64_value m e) = z \<Longrightarrow> 0 \<le> z \<Longrightarrow> z \<le> 6 \<Longrightarrow>
   convertDynamicConfigType impl (DFloat64 (Finite m e)) = (word_of_int z, None)"
proof -
  assume z: "truncate_toward_zero (float64_value m e) = z" and r: "0 \<le> z" "z \<le> 6"
  have "float64_trunc (Finite m e) = Some z" by (simp only: float64_trunc_denotes z)
  with r show ?thesis
    by (simp add: convertDynamicConfigType_def float64_to_int32_def Let_def word_of_int_known)
qed

theorem convert_float64_truncates_witness:
  "truncate_toward_zero (float64_value 4278419646001971 (- 51)) = 1 \<and>
   convertDynamicConfigType (\<lambda>_. 0) (DFloat64 (Finite 4278419646001971 (- 51)))
     = (INDEXED_VALUE_TYPE_STRING, None) \<and>
   truncate_toward_zero (float64_value 5 (- 1)) = 2 \<and>
   convertDynamicConfigType (\<lambda>_. 0) (DFloat64 (Finite 5 (- 1)))
     = (INDEXED_VALUE_TYPE_KEYWORD, None) \<and>
   truncate_toward_zero (float64_value 27 (- 2)) = 6 \<and>
   convertDynamicConfigType (\<lambda>_. 0) (DFloat64 (Finite 27 (- 2)))
     = (INDEXED_VALUE_TYPE_DATETIME, None) \<and>
   truncate_toward_zero (float64_value 3 0) = 3 \<and>
   convertDynamicConfigType (\<lambda>_. 0) (DFloat64 (Finite 3 0))
     = (INDEXED_VALUE_TYPE_INT, None) \<and>
   truncate_toward_zero (float64_value (- 1) (- 1)) = 0 \<and>
   convertDynamicConfigType (\<lambda>_. 0) (DFloat64 (Finite (- 1) (- 1)))
     = (INDEXED_VALUE_TYPE_UNSPECIFIED, None)"
proof -
  have a: "truncate_toward_zero (float64_value 4278419646001971 (- 51)) = 1"
    and b: "truncate_toward_zero (float64_value 5 (- 1)) = 2"
    and c: "truncate_toward_zero (float64_value 27 (- 2)) = 6"
    by (simp_all add: truncate_toward_zero_def float64_value_def power_int_def floor_eq_iff
          field_simps)
  have d: "truncate_toward_zero (float64_value 3 0) = 3"
    by (simp add: truncate_toward_zero_def float64_value_def)
  have n: "truncate_toward_zero (float64_value (- 1) (- 1)) = 0"
    by (simp add: truncate_toward_zero_def float64_value_def power_int_def ceiling_eq_iff
          field_simps)
  from convert_float64_truncates [OF a, of "\<lambda>_. 0"]
  have 1: "convertDynamicConfigType (\<lambda>_. 0) (DFloat64 (Finite 4278419646001971 (- 51)))
     = (INDEXED_VALUE_TYPE_STRING, None)" by (simp add: ivt_defs)
  from convert_float64_truncates [OF b, of "\<lambda>_. 0"]
  have 2: "convertDynamicConfigType (\<lambda>_. 0) (DFloat64 (Finite 5 (- 1)))
     = (INDEXED_VALUE_TYPE_KEYWORD, None)" by (simp add: ivt_defs)
  from convert_float64_truncates [OF c, of "\<lambda>_. 0"]
  have 3: "convertDynamicConfigType (\<lambda>_. 0) (DFloat64 (Finite 27 (- 2)))
     = (INDEXED_VALUE_TYPE_DATETIME, None)" by (simp add: ivt_defs)
  from convert_float64_truncates [OF d, of "\<lambda>_. 0"]
  have 4: "convertDynamicConfigType (\<lambda>_. 0) (DFloat64 (Finite 3 0))
     = (INDEXED_VALUE_TYPE_INT, None)" by (simp add: ivt_defs)
  from convert_float64_truncates [OF n, of "\<lambda>_. 0"]
  have 5: "convertDynamicConfigType (\<lambda>_. 0) (DFloat64 (Finite (- 1) (- 1)))
     = (INDEXED_VALUE_TYPE_UNSPECIFIED, None)" by (simp add: ivt_defs)
  from a b c d n 1 2 3 4 5 show ?thesis by blast
qed

lemma value_known:
  "IndexedValueType_value t = Some v \<Longrightarrow> IndexedValueType_name v \<noteq> None"
  by (auto simp: IndexedValueType_value_def IndexedValueType_name_def split: if_splits)

lemma convert_ok_known:
  "convertDynamicConfigType impl d = (v, None) \<Longrightarrow> IndexedValueType_name v \<noteq> None"
  by (cases d)
     (auto simp: convertDynamicConfigType_def Let_def
           split: if_splits option.splits dest: value_known)

lemma name_None_iff: "IndexedValueType_name t = None \<longleftrightarrow> t \<notin> known_codes"
  by (simp add: IndexedValueType_name_def known_codes_def)

lemma value_None_iff: "IndexedValueType_value t = None \<longleftrightarrow> t \<notin> canonical_names"
  by (simp add: IndexedValueType_value_def canonical_names_def)

lemma convert_rejects_iff:
  "snd (convertDynamicConfigType impl d) \<noteq> None \<longleftrightarrow> \<not> known_descriptor impl d"
proof (cases d)
  case (DString t)
  then show ?thesis
    by (cases "IndexedValueType_value t")
       (simp_all add: convertDynamicConfigType_def known_descriptor_def value_None_iff [symmetric])
qed (simp_all add: convertDynamicConfigType_def Let_def known_descriptor_def name_None_iff)

lemma convert_error:
  "convertDynamicConfigType impl d = (v, Some err) \<Longrightarrow>
   v = INDEXED_VALUE_TYPE_UNSPECIFIED \<and> err = ErrInvalidType d"
  by (cases d)
     (auto simp: convertDynamicConfigType_def Let_def split: if_splits option.splits)

lemma loop_known:
  "BuildTypeMap_loop impl xs result = (Some m, None) \<Longrightarrow>
   (\<And>n t. result n = Some t \<Longrightarrow> IndexedValueType_name t \<noteq> None) \<Longrightarrow>
   m name = Some t \<Longrightarrow> IndexedValueType_name t \<noteq> None"
proof (induction xs arbitrary: result)
  case Nil
  then show ?case by simp
next
  case (Cons x xs)
  obtain saName saType where x: "x = (saName, saType)" by (cases x)
  obtain v e where c: "convertDynamicConfigType impl saType = (v, e)"
    by (cases "convertDynamicConfigType impl saType")
  from Cons.prems(1) x c have e: "e = None" by (cases e) auto
  with Cons.prems(1) x c
  have run: "BuildTypeMap_loop impl xs (result(saName \<mapsto> v)) = (Some m, None)" by simp
  have v: "IndexedValueType_name v \<noteq> None" using c e convert_ok_known by blast
  show ?case
  proof (rule Cons.IH [OF run _ Cons.prems(3)])
    fix n t assume "(result(saName \<mapsto> v)) n = Some t"
    then show "IndexedValueType_name t \<noteq> None"
      using v Cons.prems(2) by (auto split: if_splits)
  qed
qed

lemma loop_invalid:
  "\<exists>x \<in> set xs. \<not> known_descriptor impl (snd x) \<Longrightarrow>
   \<exists>x \<in> set xs. \<not> known_descriptor impl (snd x) \<and>
      BuildTypeMap_loop impl xs result = (None, Some (ErrInvalidType (snd x)))"
proof (induction xs arbitrary: result)
  case Nil
  then show ?case by simp
next
  case (Cons x xs)
  obtain saName saType where x: "x = (saName, saType)" by (cases x)
  obtain v e where c: "convertDynamicConfigType impl saType = (v, e)"
    by (cases "convertDynamicConfigType impl saType")
  show ?case
  proof (cases e)
    case None
    with c have "known_descriptor impl saType" using convert_rejects_iff [of impl saType] by simp
    with Cons.prems x have "\<exists>y \<in> set xs. \<not> known_descriptor impl (snd y)" by auto
    from Cons.IH [OF this, of "result(saName \<mapsto> v)"]
    obtain y where y: "y \<in> set xs" "\<not> known_descriptor impl (snd y)"
      "BuildTypeMap_loop impl xs (result(saName \<mapsto> v)) = (None, Some (ErrInvalidType (snd y)))"
      by blast
    have "BuildTypeMap_loop impl (x # xs) result = (None, Some (ErrInvalidType (snd y)))"
      using x c None y(3) by simp
    with y(1,2) show ?thesis by auto
  next
    case (Some err)
    with c have "err = ErrInvalidType saType" using convert_error by blast
    moreover from c Some have "\<not> known_descriptor impl saType"
      using convert_rejects_iff [of impl saType] by simp
    ultimately show ?thesis using x c Some by auto
  qed
qed

subsection \<open>BuildTypeMap and GetType\<close>

text \<open>
  C3: when the configuration function is nil or returns an empty mapping, BuildTypeMap
  returns the nil type map and no error, and GetType on that map, as on every type map
  of length zero, fails with ErrTypeMapIsEmpty (so never with ErrInvalidName).
\<close>

theorem BuildTypeMap_absent_or_empty:
  "fn = None \<or> (\<exists>f. fn = Some f \<and> f () = []) \<Longrightarrow>
   BuildTypeMap impl fn = (None, None) \<and>
   GetType name (fst (BuildTypeMap impl fn)) = (INDEXED_VALUE_TYPE_UNSPECIFIED, Some ErrTypeMapIsEmpty) \<and>
   (\<forall>typeMap. len_is_zero typeMap \<longrightarrow>
      GetType name typeMap = (INDEXED_VALUE_TYPE_UNSPECIFIED, Some ErrTypeMapIsEmpty))"
  by (auto simp: BuildTypeMap_def GetType_def len_is_zero_def)

theorem BuildTypeMap_absent_or_empty_witness:
  "BuildTypeMap (\<lambda>_. 0) None = (None, None) \<and>
   BuildTypeMap (\<lambda>_. 0) (Some (\<lambda>_. [])) = (None, None) \<and>
   GetType ''x'' (fst (BuildTypeMap (\<lambda>_. 0) (Some (\<lambda>_. []))))
     = (INDEXED_VALUE_TYPE_UNSPECIFIED, Some ErrTypeMapIsEmpty) \<and>
   len_is_zero (Some Map.empty) \<and>
   GetType ''x'' (Some Map.empty) = (INDEXED_VALUE_TYPE_UNSPECIFIED, Some ErrTypeMapIsEmpty)"
proof -
  have e: "len_is_zero (Some Map.empty)" by (simp add: len_is_zero_def)
  have a: "BuildTypeMap (\<lambda>_. 0) None = (None, None)"
    using BuildTypeMap_absent_or_empty [of None "\<lambda>_. 0" "''x''"] by blast
  have h: "Some (\<lambda>_::unit. []) = None \<or> (\<exists>f. Some (\<lambda>_::unit. []) = Some f \<and> f () = ([] :: (string \<times> descriptor) list))"
    by simp
  note b = BuildTypeMap_absent_or_empty [OF h, of "\<lambda>_. 0" "''x''"]
  from b have b1: "BuildTypeMap (\<lambda>_. 0) (Some (\<lambda>_. [])) = (None, None)" by blast
  from b have b2: "GetType ''x'' (fst (BuildTypeMap (\<lambda>_. 0) (Some (\<lambda>_. []))))
     = (INDEXED_VALUE_TYPE_UNSPECIFIED, Some ErrTypeMapIsEmpty)" by blast
  from b e have b3: "GetType ''x'' (Some Map.empty) = (INDEXED_VALUE_TYPE_UNSPECIFIED, Some ErrTypeMapIsEmpty)"
    by blast
  from a b1 b2 b3 e show ?thesis by blast
qed

text \<open>
  C4: on a type map that is not empty, GetType fails with ErrInvalidName carrying the
  name when the name is not a key, and returns the mapped type and no error when it is.
  GetType only reads the map.
\<close>

theorem GetType_nonempty:
  "\<not> len_is_zero typeMap \<Longrightarrow>
   (index typeMap name = None \<longrightarrow>
      GetType name typeMap = (INDEXED_VALUE_TYPE_UNSPECIFIED, Some (ErrInvalidName name))) \<and>
   (\<forall>t. index typeMap name = Some t \<longrightarrow> GetType name typeMap = (t, None))"
  by (simp add: GetType_def)

theorem GetType_nonempty_witness:
  "\<not> len_is_zero (Some [''x'' \<mapsto> INDEXED_VALUE_TYPE_KEYWORD]) \<and>
   index (Some [''x'' \<mapsto> INDEXED_VALUE_TYPE_KEYWORD]) ''x'' = Some INDEXED_VALUE_TYPE_KEYWORD \<and>
   GetType ''x'' (Some [''x'' \<mapsto> INDEXED_VALUE_TYPE_KEYWORD]) = (INDEXED_VALUE_TYPE_KEYWORD, None) \<and>
   index (Some [''x'' \<mapsto> INDEXED_VALUE_TYPE_KEYWORD]) ''y'' = None \<and>
   GetType ''y'' (Some [''x'' \<mapsto> INDEXED_VALUE_TYPE_KEYWORD])
     = (INDEXED_VALUE_TYPE_UNSPECIFIED, Some (ErrInvalidName ''y''))"
proof -
  have n: "\<not> len_is_zero (Some [''x'' \<mapsto> INDEXED_VALUE_TYPE_KEYWORD])"
    by (simp add: len_is_zero_def)
  have x: "index (Some [''x'' \<mapsto> INDEXED_VALUE_TYPE_KEYWORD]) ''x'' = Some INDEXED_VALUE_TYPE_KEYWORD"
    and y: "index (Some [''x'' \<mapsto> INDEXED_VALUE_TYPE_KEYWORD]) ''y'' = None"
    by (simp_all add: index_def)
  show ?thesis
    using GetType_nonempty [OF n, of "''x''"] GetType_nonempty [OF n, of "''y''"] n x y
    by simp
qed

text \<open>
  A descriptor that denotes Unspecified (the code 0, the name "Unspecified", the
  enumeration value) passes the validity check, which only asks for membership in the
  name table: the built map then holds Unspecified for that name.
\<close>

theorem BuildTypeMap_Unspecified_counterexample:
  "BuildTypeMap (\<lambda>_. 0) (Some (\<lambda>_. [(''a'', DInt 0)]))
     = (Some [''a'' \<mapsto> INDEXED_VALUE_TYPE_UNSPECIFIED], None) \<and>
   BuildTypeMap (\<lambda>_. 0) (Some (\<lambda>_. [(''a'', DString ''Unspecified'')]))
     = (Some [''a'' \<mapsto> INDEXED_VALUE_TYPE_UNSPECIFIED], None) \<and>
   BuildTypeMap (\<lambda>_. 0) (Some (\<lambda>_. [(''a'', DIndexedValueType INDEXED_VALUE_TYPE_UNSPECIFIED)]))
     = (Some [''a'' \<mapsto> INDEXED_VALUE_TYPE_UNSPECIFIED], None) \<and>
   index (fst (BuildTypeMap (\<lambda>_. 0) (Some (\<lambda>_. [(''a'', DInt 0)])))) ''a''
     = Some INDEXED_VALUE_TYPE_UNSPECIFIED"
  by (simp add: BuildTypeMap_def convertDynamicConfigType_def IndexedValueType_name_def
        IndexedValueType_value_def ivt_defs index_def)

text \<open>
  C1 (amended): in every type map that BuildTypeMap returns without an error, each name
  present maps to a known enumeration value, that is, one of the seven values of the
  name table, Unspecified included.
\<close>

theorem BuildTypeMap_known_types:
  "BuildTypeMap impl fn = (typeMap, None) \<Longrightarrow> index typeMap name = Some t \<Longrightarrow>
   IndexedValueType_name t \<noteq> None"
proof -
  assume b: "BuildTypeMap impl fn = (typeMap, None)" and i: "index typeMap name = Some t"
  from i obtain m where m: "typeMap = Some m" "m name = Some t"
    by (cases typeMap) (auto simp: index_def)
  from b m(1) obtain f where "fn = Some f"
    and "BuildTypeMap_loop impl (f ()) Map.empty = (Some m, None)"
    by (cases fn) (auto simp: BuildTypeMap_def Let_def split: if_splits)
  then show ?thesis using loop_known [of impl "f ()" Map.empty m name t] m(2) by simp
qed

theorem BuildTypeMap_known_types_witness:
  "BuildTypeMap (\<lambda>_. 0) (Some (\<lambda>_. [(''a'', DInt 0), (''b'', DString ''Keyword'')]))
     = (Some [''a'' \<mapsto> 0, ''b'' \<mapsto> 2], None) \<and>
   index (Some [''a'' \<mapsto> 0, ''b'' \<mapsto> 2]) ''b'' = Some 2 \<and>
   IndexedValueType_name 2 \<noteq> None"
proof -
  have b: "BuildTypeMap (\<lambda>_. 0) (Some (\<lambda>_. [(''a'', DInt 0), (''b'', DString ''Keyword'')]))
     = (Some [''a'' \<mapsto> 0, ''b'' \<mapsto> 2], None)"
    by (simp add: BuildTypeMap_def convertDynamicConfigType_def IndexedValueType_name_def
        IndexedValueType_value_def ivt_defs)
  have i: "index (Some [''a'' \<mapsto> 0, ''b'' \<mapsto> (2::int32)]) ''b'' = Some 2"
    by (simp add: index_def)
  from BuildTypeMap_known_types [OF b i] b i show ?thesis by simp
qed

text \<open>
  A float64 descriptor with a fraction, and an int descriptor beyond 32 bits, are
  accepted when their conversion to int32 is a known code; and the error for a rejected
  descriptor is the same whatever the name of its entry.
\<close>

theorem BuildTypeMap_invalid_counterexample:
  "BuildTypeMap (\<lambda>_. 0) (Some (\<lambda>_. [(''a'', DFloat64 (Finite 3 (- 1)))]))
     = (Some [''a'' \<mapsto> INDEXED_VALUE_TYPE_STRING], None) \<and>
   BuildTypeMap (\<lambda>_. 0) (Some (\<lambda>_. [(''a'', DInt 4294967297)]))
     = (Some [''a'' \<mapsto> INDEXED_VALUE_TYPE_STRING], None) \<and>
   BuildTypeMap (\<lambda>_. 0) (Some (\<lambda>_. [(''a'', DString ''text'')]))
     = (None, Some (ErrInvalidType (DString ''text''))) \<and>
   BuildTypeMap (\<lambda>_. 0) (Some (\<lambda>_. [(''b'', DString ''text'')]))
     = (None, Some (ErrInvalidType (DString ''text'')))"
proof -
  have u: "(4294967297 :: int32) = 1" by simp
  show ?thesis
    by (simp add: BuildTypeMap_def convertDynamicConfigType_def IndexedValueType_name_def
        IndexedValueType_value_def ivt_defs float64_to_int32_def u)
qed

text \<open>
  C2 (amended): when the configuration mapping has at least one descriptor that denotes
  no known code or name (after the conversion of a number to int32), BuildTypeMap
  returns the nil map, not a partial one, and an ErrInvalidType error that carries the
  raw value and dynamic type of one such descriptor of the mapping; the error does not
  carry the name.
\<close>

theorem BuildTypeMap_invalid:
  "(n, d) \<in> set (fn ()) \<Longrightarrow> \<not> known_descriptor impl d \<Longrightarrow>
   \<exists>n' d'. (n', d') \<in> set (fn ()) \<and> \<not> known_descriptor impl d' \<and>
      BuildTypeMap impl (Some fn) = (None, Some (ErrInvalidType d'))"
proof -
  assume a: "(n, d) \<in> set (fn ())" "\<not> known_descriptor impl d"
  then have "\<exists>x \<in> set (fn ()). \<not> known_descriptor impl (snd x)" by force
  from loop_invalid [OF this, of Map.empty]
  obtain x where x: "x \<in> set (fn ())" "\<not> known_descriptor impl (snd x)"
    "BuildTypeMap_loop impl (fn ()) Map.empty = (None, Some (ErrInvalidType (snd x)))"
    by blast
  from x(1) have "fn () \<noteq> []" by auto
  with x(3) have "BuildTypeMap impl (Some fn) = (None, Some (ErrInvalidType (snd x)))"
    by (simp add: BuildTypeMap_def Let_def)
  moreover obtain n' d' where "x = (n', d')" by (cases x)
  ultimately show ?thesis using x(1,2) by auto
qed

theorem BuildTypeMap_invalid_witness:
  "(''b'', DInt 7) \<in> set [(''a'', DString ''Int''), (''b'', DInt 7), (''c'', DOther ''bool'')] \<and>
   \<not> known_descriptor (\<lambda>_. 0) (DInt 7) \<and>
   BuildTypeMap (\<lambda>_. 0) (Some (\<lambda>_. [(''a'', DString ''Int''), (''b'', DInt 7), (''c'', DOther ''bool'')]))
     = (None, Some (ErrInvalidType (DInt 7)))"
proof -
  have a: "(''b'', DInt 7) \<in> set ((\<lambda>_::unit. [(''a'', DString ''Int''), (''b'', DInt 7), (''c'', DOther ''bool'')]) ())"
    by simp
  have k: "\<not> known_descriptor (\<lambda>_. 0) (DInt 7)"
    by (simp add: known_descriptor_def known_codes_def)
  have "BuildTypeMap (\<lambda>_. 0) (Some (\<lambda>_. [(''a'', DString ''Int''), (''b'', DInt 7), (''c'', DOther ''bool'')]))
     = (None, Some (ErrInvalidType (DInt 7)))"
    by (simp add: BuildTypeMap_def convertDynamicConfigType_def IndexedValueType_name_def
        IndexedValueType_value_def ivt_defs)
  with BuildTypeMap_invalid [OF a k] k show ?thesis by simp
qed

subsection \<open>ApplyTypeMap: the effect of the loop\<close>

lemma body_cases:
  assumes "ApplyTypeMap_body e tm s = (s', pn)"
  shows "s' = s \<or>
    (pn = None \<and>
     (\<exists>n a r t nm. e = (n, Some a) \<and> Metadata (payload_at s a) = Some r \<and>
        map_at s r MetadataType = None \<and> index tm n = Some t \<and>
        t \<noteq> INDEXED_VALUE_TYPE_UNSPECIFIED \<and> IndexedValueType_name t = Some nm \<and>
        s' = s\<lparr>map_at := (map_at s)(r := (map_at s r)(MetadataType \<mapsto> nm))\<rparr>))"
  using assms
  by (cases e)
     (auto simp: ApplyTypeMap_body_def setMetadataType_def metadata_of_def read_map_def Let_def
           split: option.splits if_splits)

lemma body_panic_same: "ApplyTypeMap_body e tm s = (s', Some pn) \<Longrightarrow> s' = s"
  using body_cases by fastforce

lemma body_payload_at: "ApplyTypeMap_body e tm s = (s', pn) \<Longrightarrow> payload_at s' = payload_at s"
  using body_cases [of e tm s s' pn] by auto

lemma body_map_at:
  assumes "ApplyTypeMap_body e tm s = (s', pn)"
  shows "map_at s' r = map_at s r \<or>
    (map_at s r MetadataType = None \<and>
     (\<exists>n a t nm. e = (n, Some a) \<and> Metadata (payload_at s a) = Some r \<and>
        index tm n = Some t \<and> t \<noteq> INDEXED_VALUE_TYPE_UNSPECIFIED \<and>
        IndexedValueType_name t = Some nm \<and>
        map_at s' r = (map_at s r)(MetadataType \<mapsto> nm)))"
proof -
  from body_cases [OF assms] show ?thesis
  proof
    assume "s' = s"
    then show ?thesis by simp
  next
    assume "pn = None \<and>
     (\<exists>n a r t nm. e = (n, Some a) \<and> Metadata (payload_at s a) = Some r \<and>
        map_at s r MetadataType = None \<and> index tm n = Some t \<and>
        t \<noteq> INDEXED_VALUE_TYPE_UNSPECIFIED \<and> IndexedValueType_name t = Some nm \<and>
        s' = s\<lparr>map_at := (map_at s)(r := (map_at s r)(MetadataType \<mapsto> nm))\<rparr>)"
    then obtain n a ra t nm where h: "e = (n, Some a)" "Metadata (payload_at s a) = Some ra"
      "map_at s ra MetadataType = None" "index tm n = Some t"
      "t \<noteq> INDEXED_VALUE_TYPE_UNSPECIFIED" "IndexedValueType_name t = Some nm"
      "s' = s\<lparr>map_at := (map_at s)(ra := (map_at s ra)(MetadataType \<mapsto> nm))\<rparr>"
      by blast
    show ?thesis
    proof (cases "r = ra")
      case True
      with h show ?thesis by simp
    next
      case False
      with h(7) show ?thesis by simp
    qed
  qed
qed

lemma body_keeps_key:
  "ApplyTypeMap_body e tm s = (s', pn) \<Longrightarrow> map_at s r k = Some v \<Longrightarrow> map_at s' r k = Some v"
  using body_map_at [of e tm s s' pn r] by (auto split: if_splits)

lemma settled_noop: "settled tm s e \<Longrightarrow> ApplyTypeMap_body e tm s = (s, None)"
  by (cases e)
     (auto simp: settled_def ApplyTypeMap_body_def setMetadataType_def Let_def
           split: option.splits)

lemma body_settles: "ApplyTypeMap_body e tm s = (s', None) \<Longrightarrow> settled tm s' e"
  by (cases e)
     (auto simp: settled_def ApplyTypeMap_body_def setMetadataType_def metadata_of_def
                 read_map_def Let_def
           split: option.splits if_splits)

lemma metadata_of_keeps_key:
  assumes "ApplyTypeMap_body e tm s = (s', pn)" and "metadata_of s a k = Some v"
  shows "metadata_of s' a k = Some v"
proof (cases "Metadata (payload_at s a)")
  case None
  with assms(2) show ?thesis by (simp add: metadata_of_def read_map_def)
next
  case (Some r)
  with assms(2) have "map_at s r k = Some v" by (simp add: metadata_of_def read_map_def)
  from body_keeps_key [OF assms(1) this] Some body_payload_at [OF assms(1)]
  show ?thesis by (simp add: metadata_of_def read_map_def)
qed

lemma settled_mono_body:
  "settled tm s e \<Longrightarrow> ApplyTypeMap_body e' tm s = (s', pn) \<Longrightarrow> settled tm s' e"
  by (cases e) (auto simp: settled_def split: option.splits dest: metadata_of_keeps_key)

lemma settled_mono_loop:
  "settled tm s e \<Longrightarrow> ApplyTypeMap_loop xs tm s = (s', pn) \<Longrightarrow> settled tm s' e"
proof (induction xs arbitrary: s)
  case Nil
  then show ?case by simp
next
  case (Cons x xs)
  obtain s1 r where b: "ApplyTypeMap_body x tm s = (s1, r)"
    by (cases "ApplyTypeMap_body x tm s")
  from settled_mono_body [OF Cons.prems(1) b] have s1: "settled tm s1 e" .
  show ?case
  proof (cases r)
    case None
    with Cons.prems(2) b have "ApplyTypeMap_loop xs tm s1 = (s', pn)" by simp
    from Cons.IH [OF s1 this] show ?thesis .
  next
    case (Some p)
    with Cons.prems(2) b have "s' = s1" by simp
    with s1 show ?thesis by simp
  qed
qed

lemma loop_settles:
  "ApplyTypeMap_loop xs tm s = (s', None) \<Longrightarrow> e \<in> set xs \<Longrightarrow> settled tm s' e"
proof (induction xs arbitrary: s)
  case Nil
  then show ?case by simp
next
  case (Cons x xs)
  obtain s1 r where b: "ApplyTypeMap_body x tm s = (s1, r)"
    by (cases "ApplyTypeMap_body x tm s")
  from Cons.prems(1) b have r: "r = None" by (cases r) auto
  with Cons.prems(1) b have l: "ApplyTypeMap_loop xs tm s1 = (s', None)" by simp
  show ?case
  proof (cases "e = x")
    case True
    from b r have "settled tm s1 x" using body_settles by blast
    from settled_mono_loop [OF this l] True show ?thesis by simp
  next
    case False
    with Cons.prems(2) have "e \<in> set xs" by simp
    from Cons.IH [OF l this] show ?thesis .
  qed
qed

lemma loop_noop:
  "(\<And>e. e \<in> set ys \<Longrightarrow> settled tm s e) \<Longrightarrow> ApplyTypeMap_loop ys tm s = (s, None)"
  by (induction ys) (auto simp: settled_noop)

lemma loop_again:
  "ApplyTypeMap_loop xs tm s = (s', pn) \<Longrightarrow> ApplyTypeMap_loop xs tm s' = (s', pn)"
proof (induction xs arbitrary: s)
  case Nil
  then show ?case by simp
next
  case (Cons x xs)
  obtain s1 r where b: "ApplyTypeMap_body x tm s = (s1, r)"
    by (cases "ApplyTypeMap_body x tm s")
  show ?case
  proof (cases r)
    case None
    with Cons.prems b have l: "ApplyTypeMap_loop xs tm s1 = (s', pn)" by simp
    from b None have "settled tm s1 x" using body_settles by blast
    from settled_mono_loop [OF this l] have "ApplyTypeMap_body x tm s' = (s', None)"
      by (rule settled_noop)
    with Cons.IH [OF l] show ?thesis by simp
  next
    case (Some p)
    with b have "s1 = s" using body_panic_same by blast
    moreover from Cons.prems b Some have "s' = s1" "pn = Some p" by simp_all
    ultimately have "ApplyTypeMap_body x tm s' = (s', Some p)" "pn = Some p"
      using b Some by simp_all
    then show ?thesis by simp
  qed
qed

lemma loop_payload_at:
  "ApplyTypeMap_loop xs tm s = (s', pn) \<Longrightarrow> payload_at s' = payload_at s"
proof (induction xs arbitrary: s)
  case Nil
  then show ?case by simp
next
  case (Cons x xs)
  obtain s1 r where b: "ApplyTypeMap_body x tm s = (s1, r)"
    by (cases "ApplyTypeMap_body x tm s")
  from body_payload_at [OF b] have p: "payload_at s1 = payload_at s" .
  show ?case
  proof (cases r)
    case None
    with Cons.prems b have "ApplyTypeMap_loop xs tm s1 = (s', pn)" by simp
    from Cons.IH [OF this] p show ?thesis by simp
  next
    case (Some q)
    with Cons.prems b p show ?thesis by simp
  qed
qed

lemma loop_map_at:
  "ApplyTypeMap_loop xs tm s = (s', pn) \<Longrightarrow>
   map_at s' r = map_at s r \<or>
    (map_at s r MetadataType = None \<and>
     (\<exists>n a t nm. (n, Some a) \<in> set xs \<and> Metadata (payload_at s a) = Some r \<and>
        index tm n = Some t \<and> t \<noteq> INDEXED_VALUE_TYPE_UNSPECIFIED \<and>
        IndexedValueType_name t = Some nm \<and>
        map_at s' r = (map_at s r)(MetadataType \<mapsto> nm)))"
proof (induction xs arbitrary: s)
  case Nil
  then show ?case by simp
next
  case (Cons x xs)
  obtain s1 q where b: "ApplyTypeMap_body x tm s = (s1, q)"
    by (cases "ApplyTypeMap_body x tm s")
  from body_payload_at [OF b] have p: "payload_at s1 = payload_at s" .
  have rest: "map_at s' r = map_at s1 r \<or>
    (map_at s1 r MetadataType = None \<and>
     (\<exists>n a t nm. (n, Some a) \<in> set xs \<and> Metadata (payload_at s1 a) = Some r \<and>
        index tm n = Some t \<and> t \<noteq> INDEXED_VALUE_TYPE_UNSPECIFIED \<and>
        IndexedValueType_name t = Some nm \<and>
        map_at s' r = (map_at s1 r)(MetadataType \<mapsto> nm)))"
  proof (cases q)
    case None
    with Cons.prems b have "ApplyTypeMap_loop xs tm s1 = (s', pn)" by simp
    from Cons.IH [OF this] show ?thesis .
  next
    case (Some q')
    with Cons.prems b show ?thesis by simp
  qed
  from body_map_at [OF b, of r] show ?case
  proof
    assume eq: "map_at s1 r = map_at s r"
    from rest show ?thesis
    proof
      assume "map_at s' r = map_at s1 r"
      with eq show ?thesis by simp
    next
      assume "map_at s1 r MetadataType = None \<and>
       (\<exists>n a t nm. (n, Some a) \<in> set xs \<and> Metadata (payload_at s1 a) = Some r \<and>
          index tm n = Some t \<and> t \<noteq> INDEXED_VALUE_TYPE_UNSPECIFIED \<and>
          IndexedValueType_name t = Some nm \<and>
          map_at s' r = (map_at s1 r)(MetadataType \<mapsto> nm))"
      then obtain n a t nm where h: "map_at s1 r MetadataType = None" "(n, Some a) \<in> set xs"
        "Metadata (payload_at s1 a) = Some r" "index tm n = Some t"
        "t \<noteq> INDEXED_VALUE_TYPE_UNSPECIFIED" "IndexedValueType_name t = Some nm"
        "map_at s' r = (map_at s1 r)(MetadataType \<mapsto> nm)"
        by blast
      have 1: "map_at s r MetadataType = None" using h(1) eq by simp
      have 2: "(n, Some a) \<in> set (x # xs)" using h(2) by simp
      have 3: "Metadata (payload_at s a) = Some r" using h(3) p by simp
      have 4: "map_at s' r = (map_at s r)(MetadataType \<mapsto> nm)" using h(7) eq by simp
      from 1 2 3 4 h(4,5,6) show ?thesis by blast
    qed
  next
    assume w: "map_at s r MetadataType = None \<and>
     (\<exists>n a t nm. x = (n, Some a) \<and> Metadata (payload_at s a) = Some r \<and>
        index tm n = Some t \<and> t \<noteq> INDEXED_VALUE_TYPE_UNSPECIFIED \<and>
        IndexedValueType_name t = Some nm \<and>
        map_at s1 r = (map_at s r)(MetadataType \<mapsto> nm))"
    then obtain n a t nm where h: "map_at s r MetadataType = None" "x = (n, Some a)"
      "Metadata (payload_at s a) = Some r" "index tm n = Some t"
      "t \<noteq> INDEXED_VALUE_TYPE_UNSPECIFIED" "IndexedValueType_name t = Some nm"
      "map_at s1 r = (map_at s r)(MetadataType \<mapsto> nm)"
      by blast
    from h(7) have "map_at s1 r MetadataType \<noteq> None" by simp
    with rest have "map_at s' r = map_at s1 r" by blast
    with h(7) have 4: "map_at s' r = (map_at s r)(MetadataType \<mapsto> nm)" by simp
    have 2: "(n, Some a) \<in> set (x # xs)" using h(2) by simp
    from h(1) 2 h(3,4,5,6) 4 show ?thesis by blast
  qed
qed

lemma loop_keeps_key:
  "ApplyTypeMap_loop xs tm s = (s', pn) \<Longrightarrow> metadata_of s a k = Some v \<Longrightarrow>
   metadata_of s' a k = Some v"
proof (induction xs arbitrary: s)
  case Nil
  then show ?case by simp
next
  case (Cons x xs)
  obtain s1 q where b: "ApplyTypeMap_body x tm s = (s1, q)"
    by (cases "ApplyTypeMap_body x tm s")
  from metadata_of_keeps_key [OF b Cons.prems(2)] have k: "metadata_of s1 a k = Some v" .
  show ?case
  proof (cases q)
    case None
    with Cons.prems(1) b have "ApplyTypeMap_loop xs tm s1 = (s', pn)" by simp
    from Cons.IH [OF this k] show ?thesis .
  next
    case (Some q')
    with Cons.prems(1) b have "s' = s1" by simp
    with k show ?thesis by simp
  qed
qed

subsection \<open>ApplyTypeMap\<close>

lemmas eval_defs =
  ApplyTypeMap_def ApplyTypeMap_body_def setMetadataType_def GetIndexedFields_def
  metadata_of_def read_map_def len_is_zero_def index_def example_store_def
  example_typeMap_def IndexedValueType_name_def MetadataType_def ivt_defs Let_def

text \<open>
  C6: a payload whose metadata holds the type key before the call, in particular the
  payload of any entry of the collection, holds the same value under that key after the
  call, whatever the type map gives for the entry's name and however the call ends.
\<close>

theorem ApplyTypeMap_keeps_type:
  assumes "metadata_of s a MetadataType = Some v"
  shows "metadata_of (fst (ApplyTypeMap searchAttributes typeMap s)) a MetadataType = Some v"
proof (cases "len_is_zero typeMap")
  case True
  with assms show ?thesis by (simp add: ApplyTypeMap_def)
next
  case False
  obtain s' pn where l: "ApplyTypeMap_loop (GetIndexedFields searchAttributes) typeMap s = (s', pn)"
    by (cases "ApplyTypeMap_loop (GetIndexedFields searchAttributes) typeMap s")
  from loop_keeps_key [OF l assms] l False show ?thesis by (simp add: ApplyTypeMap_def)
qed

theorem ApplyTypeMap_keeps_type_witness:
  "metadata_of example_store 1 MetadataType = Some ''Int'' \<and>
   index (Some [''b'' \<mapsto> INDEXED_VALUE_TYPE_KEYWORD]) ''b'' = Some INDEXED_VALUE_TYPE_KEYWORD \<and>
   metadata_of (fst (ApplyTypeMap (Some \<lparr>IndexedFields = [(''b'', Some 1)]\<rparr>)
      (Some [''b'' \<mapsto> INDEXED_VALUE_TYPE_KEYWORD]) example_store)) 1 MetadataType = Some ''Int''"
proof -
  have h: "metadata_of example_store 1 MetadataType = Some ''Int''"
    by (simp add: eval_defs)
  from ApplyTypeMap_keeps_type [OF h] h show ?thesis by (simp add: index_def)
qed

text \<open>
  C5: ApplyTypeMap is idempotent. Applied again to the store it left, with the same
  collection and type map, it leaves that store as it is: always so when the entries are
  visited in the same order (the second call then ends as the first did), and for every
  order of visiting entries of the collection when the first call returned.
\<close>

theorem ApplyTypeMap_idempotent:
  assumes "ApplyTypeMap searchAttributes typeMap s = (s1, pn)"
  shows "ApplyTypeMap searchAttributes typeMap s1 = (s1, pn) \<and>
    (pn = None \<longrightarrow>
      (\<forall>again. set (GetIndexedFields again) \<subseteq> set (GetIndexedFields searchAttributes) \<longrightarrow>
         ApplyTypeMap again typeMap s1 = (s1, None)))"
proof (cases "len_is_zero typeMap")
  case True
  with assms show ?thesis by (simp add: ApplyTypeMap_def)
next
  case False
  with assms have l: "ApplyTypeMap_loop (GetIndexedFields searchAttributes) typeMap s = (s1, pn)"
    by (simp add: ApplyTypeMap_def)
  from loop_again [OF l] False have 1: "ApplyTypeMap searchAttributes typeMap s1 = (s1, pn)"
    by (simp add: ApplyTypeMap_def)
  have 2: "ApplyTypeMap again typeMap s1 = (s1, None)"
    if "pn = None" and sub: "set (GetIndexedFields again) \<subseteq> set (GetIndexedFields searchAttributes)"
    for again
  proof -
    from l that(1) have "\<And>e. e \<in> set (GetIndexedFields again) \<Longrightarrow> settled typeMap s1 e"
      using loop_settles sub by blast
    from loop_noop [OF this] False show ?thesis by (simp add: ApplyTypeMap_def)
  qed
  from 1 2 show ?thesis by blast
qed

theorem ApplyTypeMap_idempotent_witness:
  "snd (ApplyTypeMap (Some \<lparr>IndexedFields = [(''a'', Some 0), (''b'', Some 1), (''x'', Some 3)]\<rparr>)
          example_typeMap example_store) = None \<and>
   metadata_of (fst (ApplyTypeMap (Some \<lparr>IndexedFields = [(''a'', Some 0), (''b'', Some 1), (''x'', Some 3)]\<rparr>)
          example_typeMap example_store)) 0 MetadataType = Some ''String'' \<and>
   ApplyTypeMap (Some \<lparr>IndexedFields = [(''x'', Some 3), (''b'', Some 1), (''a'', Some 0)]\<rparr>) example_typeMap
     (fst (ApplyTypeMap (Some \<lparr>IndexedFields = [(''a'', Some 0), (''b'', Some 1), (''x'', Some 3)]\<rparr>)
          example_typeMap example_store))
   = (fst (ApplyTypeMap (Some \<lparr>IndexedFields = [(''a'', Some 0), (''b'', Some 1), (''x'', Some 3)]\<rparr>)
          example_typeMap example_store), None)"
proof -
  let ?sa = "Some \<lparr>IndexedFields = [(''a'', Some 0), (''b'', Some 1), (''x'', Some 3)]\<rparr>"
  let ?again = "Some \<lparr>IndexedFields = [(''x'', Some 3), (''b'', Some 1), (''a'', Some 0)]\<rparr>"
  have n: "snd (ApplyTypeMap ?sa example_typeMap example_store) = None"
    by (simp add: eval_defs)
  have m: "metadata_of (fst (ApplyTypeMap ?sa example_typeMap example_store)) 0 MetadataType
      = Some ''String''"
    by (simp add: eval_defs)
  have sub: "set (GetIndexedFields ?again) \<subseteq> set (GetIndexedFields ?sa)"
    by (simp add: GetIndexedFields_def)
  have run: "ApplyTypeMap ?sa example_typeMap example_store
      = (fst (ApplyTypeMap ?sa example_typeMap example_store), None)"
    using n by (simp add: prod_eq_iff)
  from ApplyTypeMap_idempotent [OF run] sub
  have "ApplyTypeMap ?again example_typeMap (fst (ApplyTypeMap ?sa example_typeMap example_store))
      = (fst (ApplyTypeMap ?sa example_typeMap example_store), None)"
    by blast
  with n m show ?thesis by blast
qed

text \<open>
  Two names of the collection may hold the same payload pointer. The type key stamped
  for the name that the type map knows is then seen under the other name too, in either
  order of visit.
\<close>

theorem ApplyTypeMap_shared_payload_counterexample:
  "(''x'', Some 0) \<in> set [(''a'', Some 0), (''x'', Some 0)] \<and>
   index (Some [''a'' \<mapsto> INDEXED_VALUE_TYPE_STRING]) ''x'' = None \<and>
   metadata_of example_store 0 MetadataType = None \<and>
   metadata_of (fst (ApplyTypeMap (Some \<lparr>IndexedFields = [(''a'', Some 0), (''x'', Some 0)]\<rparr>)
      (Some [''a'' \<mapsto> INDEXED_VALUE_TYPE_STRING]) example_store)) 0 MetadataType = Some ''String'' \<and>
   metadata_of (fst (ApplyTypeMap (Some \<lparr>IndexedFields = [(''x'', Some 0), (''a'', Some 0)]\<rparr>)
      (Some [''a'' \<mapsto> INDEXED_VALUE_TYPE_STRING]) example_store)) 0 MetadataType = Some ''String''"
  by (simp add: eval_defs)

text \<open>
  C7 (amended): ApplyTypeMap changes the store only by adding the type key to metadata
  maps. The payload structs, hence every raw value and the entries that point to them,
  stay as they are; no key other than the type key changes in any metadata map; a
  metadata map changes only by gaining the type key it lacked, with the canonical name of
  a specified type, and only when it is the metadata map of an entry whose name is in
  the type map. So the metadata of an entry whose name is absent from the type map is
  unchanged unless the entry shares its metadata map with an entry whose name is
  present. With a type map of length zero the call changes nothing.
\<close>

theorem ApplyTypeMap_frame:
  assumes "ApplyTypeMap searchAttributes typeMap s = (s', pn)"
  shows "payload_at s' = payload_at s \<and>
    (\<forall>r k. k \<noteq> MetadataType \<longrightarrow> map_at s' r k = map_at s r k) \<and>
    (\<forall>r. map_at s' r \<noteq> map_at s r \<longrightarrow>
       map_at s r MetadataType = None \<and>
       (\<exists>n a t nm. (n, Some a) \<in> set (GetIndexedFields searchAttributes) \<and>
          Metadata (payload_at s a) = Some r \<and> index typeMap n = Some t \<and>
          t \<noteq> INDEXED_VALUE_TYPE_UNSPECIFIED \<and> IndexedValueType_name t = Some nm \<and>
          map_at s' r = (map_at s r)(MetadataType \<mapsto> nm))) \<and>
    (\<forall>x b. (x, Some b) \<in> set (GetIndexedFields searchAttributes) \<and> index typeMap x = None \<and>
       (\<forall>n a r. (n, Some a) \<in> set (GetIndexedFields searchAttributes) \<and>
          index typeMap n \<noteq> None \<and> Metadata (payload_at s a) = Some r
          \<longrightarrow> Metadata (payload_at s b) \<noteq> Some r)
       \<longrightarrow> metadata_of s' b = metadata_of s b) \<and>
    (len_is_zero typeMap \<longrightarrow> s' = s \<and> pn = None)"
proof (cases "len_is_zero typeMap")
  case True
  with assms show ?thesis by (simp add: ApplyTypeMap_def)
next
  case False
  let ?xs = "GetIndexedFields searchAttributes"
  from assms False have l: "ApplyTypeMap_loop ?xs typeMap s = (s', pn)"
    by (simp add: ApplyTypeMap_def)
  note p = loop_payload_at [OF l]
  note m = loop_map_at [OF l]
  have 2: "map_at s' r k = map_at s r k" if "k \<noteq> MetadataType" for r k
    using m [of r] that by auto
  have 3: "map_at s r MetadataType = None \<and>
       (\<exists>n a t nm. (n, Some a) \<in> set ?xs \<and>
          Metadata (payload_at s a) = Some r \<and> index typeMap n = Some t \<and>
          t \<noteq> INDEXED_VALUE_TYPE_UNSPECIFIED \<and> IndexedValueType_name t = Some nm \<and>
          map_at s' r = (map_at s r)(MetadataType \<mapsto> nm))"
    if "map_at s' r \<noteq> map_at s r" for r
    using m [of r] that by blast
  have 4: "metadata_of s' b = metadata_of s b"
    if own: "\<forall>n a r. (n, Some a) \<in> set ?xs \<and> index typeMap n \<noteq> None \<and>
        Metadata (payload_at s a) = Some r \<longrightarrow> Metadata (payload_at s b) \<noteq> Some r"
    for b
  proof (cases "Metadata (payload_at s b)")
    case None
    with p show ?thesis by (simp add: metadata_of_def read_map_def)
  next
    case (Some r)
    have "map_at s' r = map_at s r"
    proof (rule ccontr)
      assume "map_at s' r \<noteq> map_at s r"
      from 3 [OF this] obtain n a t where "(n, Some a) \<in> set ?xs"
        "Metadata (payload_at s a) = Some r" "index typeMap n = Some t"
        by blast
      with own Some show False by auto
    qed
    with Some p show ?thesis by (simp add: metadata_of_def read_map_def)
  qed
  from p 2 3 4 False show ?thesis by blast
qed

theorem ApplyTypeMap_frame_witness:
  "index example_typeMap ''x'' = None \<and>
   payload_at (fst (ApplyTypeMap (Some \<lparr>IndexedFields = [(''a'', Some 0), (''x'', Some 3)]\<rparr>)
      example_typeMap example_store)) = payload_at example_store \<and>
   metadata_of (fst (ApplyTypeMap (Some \<lparr>IndexedFields = [(''a'', Some 0), (''x'', Some 3)]\<rparr>)
      example_typeMap example_store)) 3 = metadata_of example_store 3 \<and>
   metadata_of (fst (ApplyTypeMap (Some \<lparr>IndexedFields = [(''a'', Some 0), (''x'', Some 3)]\<rparr>)
      example_typeMap example_store)) 0 MetadataType = Some ''String'' \<and>
   len_is_zero None \<and>
   ApplyTypeMap (Some \<lparr>IndexedFields = [(''a'', Some 0), (''x'', Some 3)]\<rparr>) None example_store
     = (example_store, None)"
proof -
  let ?sa = "Some \<lparr>IndexedFields = [(''a'', Some 0), (''x'', Some 3)]\<rparr>"
  let ?s' = "fst (ApplyTypeMap ?sa example_typeMap example_store)"
  have run: "ApplyTypeMap ?sa example_typeMap example_store
      = (?s', snd (ApplyTypeMap ?sa example_typeMap example_store))"
    by simp
  note f = ApplyTypeMap_frame [OF run]
  have i: "index example_typeMap ''x'' = None" by (simp add: eval_defs)
  have mem: "(''x'', Some 3) \<in> set (GetIndexedFields ?sa)" by (simp add: GetIndexedFields_def)
  have own: "\<forall>n a r. (n, Some a) \<in> set (GetIndexedFields ?sa) \<and>
      index example_typeMap n \<noteq> None \<and> Metadata (payload_at example_store a) = Some r
      \<longrightarrow> Metadata (payload_at example_store 3) \<noteq> Some r"
    by (auto simp: eval_defs)
  from f have 1: "payload_at ?s' = payload_at example_store" by blast
  from f mem i own have 2: "metadata_of ?s' 3 = metadata_of example_store 3" by blast
  have 3: "metadata_of ?s' 0 MetadataType = Some ''String''" by (simp add: eval_defs)
  have z: "len_is_zero None" by (simp add: len_is_zero_def)
  have run0: "ApplyTypeMap ?sa None example_store
      = (fst (ApplyTypeMap ?sa None example_store), snd (ApplyTypeMap ?sa None example_store))"
    by simp
  from ApplyTypeMap_frame [OF run0] z
  have "fst (ApplyTypeMap ?sa None example_store) = example_store \<and>
        snd (ApplyTypeMap ?sa None example_store) = None"
    by blast
  then have 4: "ApplyTypeMap ?sa None example_store = (example_store, None)"
    by (simp add: prod_eq_iff)
  from i 1 2 3 z 4 show ?thesis by blast
qed

text \<open>
  An entry mapped to Unspecified that shares its payload with an entry mapped to String
  ends with the type key String in its metadata, in either order of visit.
\<close>

theorem ApplyTypeMap_Unspecified_shared_counterexample:
  "(''u'', Some 0) \<in> set [(''u'', Some 0), (''a'', Some 0)] \<and>
   index example_typeMap ''u'' = Some INDEXED_VALUE_TYPE_UNSPECIFIED \<and>
   metadata_of example_store 0 MetadataType = None \<and>
   metadata_of (fst (ApplyTypeMap (Some \<lparr>IndexedFields = [(''u'', Some 0), (''a'', Some 0)]\<rparr>)
      example_typeMap example_store)) 0 MetadataType = Some ''String'' \<and>
   metadata_of (fst (ApplyTypeMap (Some \<lparr>IndexedFields = [(''a'', Some 0), (''u'', Some 0)]\<rparr>)
      example_typeMap example_store)) 0 MetadataType = Some ''String''"
  by (simp add: eval_defs)

text \<open>
  C9 (amended): for an entry whose name the type map resolves to Unspecified, the loop
  body writes nothing and does not panic, in any store. After the whole call the entry's
  metadata is as before, unless another name of the collection, resolved to a specified
  type, holds the same metadata map: then the canonical name of that type has been
  written under the type key. No value standing for Unspecified is ever written.
\<close>

theorem ApplyTypeMap_Unspecified:
  assumes "(u, Some a) \<in> set (GetIndexedFields searchAttributes)"
    and "index typeMap u = Some INDEXED_VALUE_TYPE_UNSPECIFIED"
  shows "(\<forall>s0. ApplyTypeMap_body (u, Some a) typeMap s0 = (s0, None)) \<and>
    (metadata_of (fst (ApplyTypeMap searchAttributes typeMap s)) a = metadata_of s a \<or>
     (\<exists>n b t nm. (n, Some b) \<in> set (GetIndexedFields searchAttributes) \<and> n \<noteq> u \<and>
        Metadata (payload_at s b) = Metadata (payload_at s a) \<and>
        index typeMap n = Some t \<and> t \<noteq> INDEXED_VALUE_TYPE_UNSPECIFIED \<and>
        IndexedValueType_name t = Some nm \<and>
        metadata_of (fst (ApplyTypeMap searchAttributes typeMap s)) a
          = (metadata_of s a)(MetadataType \<mapsto> nm)))"
proof -
  let ?xs = "GetIndexedFields searchAttributes"
  let ?s' = "fst (ApplyTypeMap searchAttributes typeMap s)"
  have 1: "ApplyTypeMap_body (u, Some a) typeMap s0 = (s0, None)" for s0
    by (rule settled_noop) (simp add: settled_def assms(2))
  have 2: "metadata_of ?s' a = metadata_of s a \<or>
     (\<exists>n b t nm. (n, Some b) \<in> set ?xs \<and> n \<noteq> u \<and>
        Metadata (payload_at s b) = Metadata (payload_at s a) \<and>
        index typeMap n = Some t \<and> t \<noteq> INDEXED_VALUE_TYPE_UNSPECIFIED \<and>
        IndexedValueType_name t = Some nm \<and>
        metadata_of ?s' a = (metadata_of s a)(MetadataType \<mapsto> nm))"
  proof (cases "len_is_zero typeMap")
    case True
    then show ?thesis by (simp add: ApplyTypeMap_def)
  next
    case False
    obtain s' pn where l: "ApplyTypeMap_loop ?xs typeMap s = (s', pn)"
      by (cases "ApplyTypeMap_loop ?xs typeMap s")
    with False have s': "?s' = s'" by (simp add: ApplyTypeMap_def)
    note p = loop_payload_at [OF l]
    show ?thesis
    proof (cases "Metadata (payload_at s a)")
      case None
      with p s' show ?thesis by (simp add: metadata_of_def read_map_def)
    next
      case (Some r)
      from loop_map_at [OF l, of r] show ?thesis
      proof
        assume "map_at s' r = map_at s r"
        with Some p s' show ?thesis by (simp add: metadata_of_def read_map_def)
      next
        assume "map_at s r MetadataType = None \<and>
          (\<exists>n a t nm. (n, Some a) \<in> set ?xs \<and> Metadata (payload_at s a) = Some r \<and>
            index typeMap n = Some t \<and> t \<noteq> INDEXED_VALUE_TYPE_UNSPECIFIED \<and>
            IndexedValueType_name t = Some nm \<and>
            map_at s' r = (map_at s r)(MetadataType \<mapsto> nm))"
        then obtain n b t nm where h: "(n, Some b) \<in> set ?xs"
          "Metadata (payload_at s b) = Some r" "index typeMap n = Some t"
          "t \<noteq> INDEXED_VALUE_TYPE_UNSPECIFIED" "IndexedValueType_name t = Some nm"
          "map_at s' r = (map_at s r)(MetadataType \<mapsto> nm)"
          by blast
        from h(3,4) assms(2) have ne: "n \<noteq> u" by auto
        from h(2) Some have sh: "Metadata (payload_at s b) = Metadata (payload_at s a)" by simp
        from h(6) Some p s'
        have w: "metadata_of ?s' a = (metadata_of s a)(MetadataType \<mapsto> nm)"
          by (simp add: metadata_of_def read_map_def)
        from h(1) ne sh h(3,4,5) w show ?thesis by blast
      qed
    qed
  qed
  from 1 2 show ?thesis by blast
qed

theorem ApplyTypeMap_Unspecified_witness:
  "(''u'', Some 0) \<in> set (GetIndexedFields (Some \<lparr>IndexedFields = [(''u'', Some 0), (''a'', Some 3)]\<rparr>)) \<and>
   index example_typeMap ''u'' = Some INDEXED_VALUE_TYPE_UNSPECIFIED \<and>
   ApplyTypeMap_body (''u'', Some 0) example_typeMap example_store = (example_store, None) \<and>
   metadata_of (fst (ApplyTypeMap (Some \<lparr>IndexedFields = [(''u'', Some 0), (''a'', Some 3)]\<rparr>)
      example_typeMap example_store)) 0 = metadata_of example_store 0 \<and>
   metadata_of (fst (ApplyTypeMap (Some \<lparr>IndexedFields = [(''u'', Some 0), (''a'', Some 3)]\<rparr>)
      example_typeMap example_store)) 3 MetadataType = Some ''String''"
proof -
  let ?sa = "Some \<lparr>IndexedFields = [(''u'', Some 0), (''a'', Some 3)]\<rparr>"
  let ?s' = "fst (ApplyTypeMap ?sa example_typeMap example_store)"
  have mem: "(''u'', Some 0) \<in> set (GetIndexedFields ?sa)" by (simp add: GetIndexedFields_def)
  have i: "index example_typeMap ''u'' = Some INDEXED_VALUE_TYPE_UNSPECIFIED"
    by (simp add: eval_defs)
  note t = ApplyTypeMap_Unspecified [OF mem i, of example_store]
  from t have 1: "ApplyTypeMap_body (''u'', Some 0) example_typeMap example_store = (example_store, None)"
    by blast
  have no: "\<not> (\<exists>n b t nm. (n, Some b) \<in> set (GetIndexedFields ?sa) \<and> n \<noteq> ''u'' \<and>
        Metadata (payload_at example_store b) = Metadata (payload_at example_store 0) \<and>
        index example_typeMap n = Some t \<and> t \<noteq> INDEXED_VALUE_TYPE_UNSPECIFIED \<and>
        IndexedValueType_name t = Some nm \<and>
        metadata_of ?s' 0 = (metadata_of example_store 0)(MetadataType \<mapsto> nm))"
    by (auto simp: GetIndexedFields_def example_store_def)
  from t no have 2: "metadata_of ?s' 0 = metadata_of example_store 0" by blast
  have 3: "metadata_of ?s' 3 MetadataType = Some ''String''" by (simp add: eval_defs)
  from mem i 1 2 3 show ?thesis by blast
qed

end
